theory Spec2Isabelle
  imports Main "HOL-Library.Sublist"
begin

section \<open>Text\<close>

text \<open>
  The script \<^verbatim>\<open>tools/apply_patch.py\<close> handles Python \<^verbatim>\<open>str\<close> values: sequences of
  Unicode code points. A code point is a natural number here, and a piece of text is a
  list of them. \<open>py\<close> turns an ASCII literal of the source into such a list.
\<close>

type_synonym str = "nat list"

definition py :: "string \<Rightarrow> str" where
  "py s = map of_char s"

text \<open>
  \<^verbatim>\<open>str.isspace\<close> for one code point, as CPython decides it: the characters of
  bidirectional type WS, B or S and of category Zs. They are U+0009..U+000D,
  U+001C..U+0020, U+0085, U+00A0, U+1680, U+2000..U+200A, U+2028, U+2029, U+202F, U+205F
  and U+3000.
\<close>

definition isspace :: "nat \<Rightarrow> bool" where
  "isspace c =
     ((9 \<le> c \<and> c \<le> 13) \<or> (28 \<le> c \<and> c \<le> 32) \<or> c = 133 \<or> c = 160 \<or> c = 5760 \<or>
      (8192 \<le> c \<and> c \<le> 8202) \<or> c = 8232 \<or> c = 8233 \<or> c = 8239 \<or> c = 8287 \<or>
      c = 12288)"

text \<open>
  \<^verbatim>\<open>str.strip()\<close> with no argument: the whitespace at the left end is dropped, then the
  whitespace at the right end.
\<close>

definition strip :: "str \<Rightarrow> str" where
  "strip s = rev (dropWhile isspace (rev (dropWhile isspace s)))"

section \<open>Bytes and UTF-8\<close>

text \<open>
  A file holds bytes. \<^verbatim>\<open>write_text(..., encoding="utf-8")\<close> turns text into bytes with
  the strict UTF-8 codec: one to four bytes for a code point, and \<^verbatim>\<open>UnicodeEncodeError\<close>
  (\<open>None\<close> here) for a surrogate, U+D800..U+DFFF. Text read from standard input can hold
  lone surrogates: under a POSIX locale the interpreter decodes standard input with the
  \<^verbatim>\<open>surrogateescape\<close> handler, which turns a byte that is not UTF-8, say \<^verbatim>\<open>ff\<close>, into
  U+DCFF. A Python \<^verbatim>\<open>str\<close> holds no code point above U+10FFFF; the encoder gives \<open>None\<close>
  there too.
\<close>

type_synonym bytes = "char list"

definition utf8_char :: "nat \<Rightarrow> bytes option" where
  "utf8_char c =
     (if c < 128 then Some [char_of c]
      else if c < 2048 then Some [char_of (192 + c div 64), char_of (128 + c mod 64)]
      else if 55296 \<le> c \<and> c \<le> 57343 then None
      else if c < 65536 then
        Some [char_of (224 + c div 4096), char_of (128 + c div 64 mod 64), char_of (128 + c mod 64)]
      else if c < 1114112 then
        Some [char_of (240 + c div 262144), char_of (128 + c div 4096 mod 64),
              char_of (128 + c div 64 mod 64), char_of (128 + c mod 64)]
      else None)"

fun utf8_encode :: "str \<Rightarrow> bytes option" where
  "utf8_encode [] = Some []"
| "utf8_encode (c # cs) =
     (case utf8_char c of
        None \<Rightarrow> None
      | Some bs \<Rightarrow> map_option ((@) bs) (utf8_encode cs))"

text \<open>
  Reading bytes back as text, the way \<^verbatim>\<open>bytes.decode("utf-8")\<close> does: the strict decoder,
  which refuses (\<open>None\<close>) a stray or missing continuation byte, an overlong form, a
  surrogate and anything above U+10FFFF.
\<close>

definition continuation :: "char \<Rightarrow> bool" where
  "continuation b = (128 \<le> (of_char b :: nat) \<and> (of_char b :: nat) < 192)"

definition low6 :: "char \<Rightarrow> nat" where
  "low6 b = of_char b - 128"

fun utf8_decode :: "bytes \<Rightarrow> str option" where
  "utf8_decode [] = Some []"
| "utf8_decode (b # bs) =
     (let n = of_char b :: nat in
      if n < 128 then map_option ((#) n) (utf8_decode bs)
      else if 194 \<le> n \<and> n < 224 then
        (case bs of
           b1 # r \<Rightarrow>
             if continuation b1
             then map_option ((#) ((n - 192) * 64 + low6 b1)) (utf8_decode r)
             else None
         | _ \<Rightarrow> None)
      else if 224 \<le> n \<and> n < 240 then
        (case bs of
           b1 # b2 # r \<Rightarrow>
             let c = (n - 224) * 4096 + low6 b1 * 64 + low6 b2 in
             if continuation b1 \<and> continuation b2 \<and> 2048 \<le> c \<and> \<not> (55296 \<le> c \<and> c \<le> 57343)
             then map_option ((#) c) (utf8_decode r)
             else None
         | _ \<Rightarrow> None)
      else if 240 \<le> n \<and> n < 245 then
        (case bs of
           b1 # b2 # b3 # r \<Rightarrow>
             let c = (n - 240) * 262144 + low6 b1 * 4096 + low6 b2 * 64 + low6 b3 in
             if continuation b1 \<and> continuation b2 \<and> continuation b3 \<and> 65536 \<le> c \<and> c < 1114112
             then map_option ((#) c) (utf8_decode r)
             else None
         | _ \<Rightarrow> None)
      else None)"

section \<open>The process and its environment\<close>

text \<open>
  \<^verbatim>\<open>subprocess.CompletedProcess\<close> as \<^verbatim>\<open>subprocess.run(cmd, text=True, capture_output=True)\<close>
  returns it: the child's return code and its two captured streams, as text. The return
  code of a child that exited is its exit code, 0..255; for a child killed by signal
  \<open>N\<close> it is \<open>- N\<close>.
\<close>

record completed_process =
  returncode :: int
  cp_stdout :: str
  cp_stderr :: str

text \<open>
  The file system maps a path to the bytes stored there. An external command is a black
  box: given its argument vector and the file system it finds, it runs to completion and
  leaves a \<open>completed_process\<close> and a file system behind.
\<close>

type_synonym filesystem = "str \<rightharpoonup> bytes"

type_synonym external = "str list \<Rightarrow> filesystem \<Rightarrow> completed_process \<times> filesystem"

text \<open>
  How a function of the script can leave other than by returning: through
  \<^verbatim>\<open>sys.exit(code)\<close>, or with the \<^verbatim>\<open>UnicodeEncodeError\<close> that \<^verbatim>\<open>write_text\<close> raises and
  nothing in the script catches.
\<close>

datatype raised = SystemExit int | UnicodeEncodeError

text \<open>
  What the process does to the outside, in the order it does it; \<open>Traceback\<close> is the
  interpreter's report of an uncaught exception. The other library calls are taken to
  succeed: the interpreter can decode standard input, create the file, start the command
  and decode what it printed. The script handles none of their failures, and they are not
  part of the model.
\<close>

datatype event =
    StdinRead str
  | FileWrite str str
  | Spawn "str list"
  | Completed "str list" completed_process
  | StderrWrite str
  | StdoutWrite str
  | Traceback raised

text \<open>
  The fields \<open>stdout\<close> and \<open>stderr\<close> hold what the script itself has written to the two
  streams.
\<close>

record world =
  stdin :: str
  files :: filesystem
  stdout :: str
  stderr :: str
  events :: "event list"

text \<open>The process at its start: \<open>T\<close> waits on standard input, nothing has happened yet.\<close>

definition start :: "str \<Rightarrow> filesystem \<Rightarrow> world" where
  "start T fs = \<lparr>stdin = T, files = fs, stdout = [], stderr = [], events = []\<rparr>"

text \<open>\<^verbatim>\<open>sys.stdin.read()\<close>: everything up to the end of the stream.\<close>

definition stdin_read :: "world \<Rightarrow> str \<times> world" where
  "stdin_read w = (stdin w, w\<lparr>stdin := [], events := events w @ [StdinRead (stdin w)]\<rparr>)"

text \<open>\<^verbatim>\<open>sys.stderr.write(s)\<close> and \<^verbatim>\<open>sys.stdout.write(s)\<close>.\<close>

definition stderr_write :: "str \<Rightarrow> world \<Rightarrow> world" where
  "stderr_write s w = w\<lparr>stderr := stderr w @ s, events := events w @ [StderrWrite s]\<rparr>"

definition stdout_write :: "str \<Rightarrow> world \<Rightarrow> world" where
  "stdout_write s w = w\<lparr>stdout := stdout w @ s, events := events w @ [StdoutWrite s]\<rparr>"

text \<open>
  \<^verbatim>\<open>print(s, file=sys.stderr)\<close> and \<^verbatim>\<open>print(s)\<close>: the text, then a line feed (U+000A).
\<close>

definition print_stderr :: "str \<Rightarrow> world \<Rightarrow> world" where
  "print_stderr s w = stderr_write (s @ [10]) w"

definition print_stdout :: "str \<Rightarrow> world \<Rightarrow> world" where
  "print_stdout s w = stdout_write (s @ [10]) w"

text \<open>
  \<^verbatim>\<open>Path.write_text(data, encoding="utf-8")\<close>: the file is opened for writing, which
  creates it or empties it, and then receives the UTF-8 bytes of \<open>data\<close>. When \<open>data\<close>
  cannot be encoded the call raises with the file open and empty, and that is how the file
  stays.
\<close>

definition write_text :: "str \<Rightarrow> str \<Rightarrow> world \<Rightarrow> (raised + unit) \<times> world" where
  "write_text path data w =
     (let w1 = w\<lparr>files := (files w)(path \<mapsto> []), events := events w @ [FileWrite path data]\<rparr>
      in case utf8_encode data of
           None \<Rightarrow> (Inl UnicodeEncodeError, w1)
         | Some bs \<Rightarrow> (Inr (), w1\<lparr>files := (files w1)(path \<mapsto> bs)\<rparr>))"

text \<open>
  \<^verbatim>\<open>subprocess.run\<close> starts the child and returns only when the child has completed:
  the two events are adjacent, and the child's effect on the files is in place afterwards.
\<close>

definition subprocess_run :: "external \<Rightarrow> str list \<Rightarrow> world \<Rightarrow> completed_process \<times> world" where
  "subprocess_run ext cmd w =
     (let (p, fs') = ext cmd (files w)
      in (p, w\<lparr>files := fs', events := events w @ [Spawn cmd, Completed cmd p]\<rparr>))"

section \<open>The script\<close>

text \<open>
  A function of the script either returns a value (\<open>Inr\<close>) or leaves early (\<open>Inl\<close>).
  \<^verbatim>\<open>
  def run(cmd):
    p = subprocess.run(cmd, text=True, capture_output=True)
    if p.returncode != 0:
      sys.stderr.write(p.stdout)
      sys.stderr.write(p.stderr)
      sys.exit(p.returncode)
    return p
  \<close>
\<close>

definition run :: "external \<Rightarrow> str list \<Rightarrow> world \<Rightarrow> (raised + completed_process) \<times> world" where
  "run ext cmd w =
     (let (p, w1) = subprocess_run ext cmd w
      in if returncode p \<noteq> 0
         then (Inl (SystemExit (returncode p)),
               stderr_write (cp_stderr p) (stderr_write (cp_stdout p) w1))
         else (Inr p, w1))"

text \<open>
  \<^verbatim>\<open>Path("/tmp/tiara_patch.patch")\<close>; the literal is a normal POSIX path already, so
  \<^verbatim>\<open>str(patch_path)\<close> is the same text.
\<close>

definition patch_path :: str where
  "patch_path = py ''/tmp/tiara_patch.patch''"

definition usage :: str where
  "usage = py ''No patch text on stdin. Paste diff and end with Ctrl-D.''"

definition check_cmd :: "str list" where
  "check_cmd = [py ''git'', py ''apply'', py ''--check'', patch_path]"

definition apply_cmd :: "str list" where
  "apply_cmd = [py ''git'', py ''apply'', patch_path]"

text \<open>
  \<^verbatim>\<open>
  def main():
    patch_text = sys.stdin.read()
    if not patch_text.strip():
      print("No patch text on stdin. Paste diff and end with Ctrl-D.", file=sys.stderr)
      sys.exit(1)

    patch_path = Path("/tmp/tiara_patch.patch")
    patch_path.write_text(patch_text, encoding="utf-8")

    # dry-run check
    run(["git", "apply", "--check", str(patch_path)])
    # apply
    run(["git", "apply", str(patch_path)])

    print(f"Applied patch: {patch_path}")
  \<close>
\<close>

definition main :: "external \<Rightarrow> world \<Rightarrow> (raised + unit) \<times> world" where
  "main ext w0 =
     (let (patch_text, w1) = stdin_read w0
      in if strip patch_text = []
         then (Inl (SystemExit 1), print_stderr usage w1)
         else
           case write_text patch_path patch_text w1 of
             (Inl e, w2) \<Rightarrow> (Inl e, w2)
           | (Inr _, w2) \<Rightarrow>
               (case run ext check_cmd w2 of
                  (Inl e, w3) \<Rightarrow> (Inl e, w3)
                | (Inr _, w3) \<Rightarrow>
                    (case run ext apply_cmd w3 of
                       (Inl e, w4) \<Rightarrow> (Inl e, w4)
                     | (Inr _, w4) \<Rightarrow>
                         (Inr (), print_stdout (py ''Applied patch: '' @ patch_path) w4))))"

text \<open>
  The status the process ends with, as its parent sees it. \<^verbatim>\<open>sys.exit(code)\<close> hands
  \<open>code\<close> to the C library's \<^verbatim>\<open>exit\<close>, and the parent receives its low eight bits:
  \<open>code mod 256\<close>, so \<open>- 9\<close> ends as 247. An uncaught exception ends the process with
  status 1, and reaching the end of the script with status 0.
\<close>

definition exit_status :: "raised + unit \<Rightarrow> int" where
  "exit_status r =
     (case r of
        Inl (SystemExit code) \<Rightarrow> code mod 256
      | Inl UnicodeEncodeError \<Rightarrow> 1
      | Inr _ \<Rightarrow> 0)"

definition traceback :: "raised + unit \<Rightarrow> world \<Rightarrow> world" where
  "traceback r w =
     (case r of
        Inl UnicodeEncodeError \<Rightarrow> w\<lparr>events := events w @ [Traceback UnicodeEncodeError]\<rparr>
      | _ \<Rightarrow> w)"

text \<open>
  \<^verbatim>\<open>
  if __name__ == "__main__":
    main()
  \<close>
  One run of the script on the input \<open>T\<close> in the file system \<open>fs\<close>: the exit status
  and the world the process leaves behind.
\<close>

definition script :: "external \<Rightarrow> str \<Rightarrow> filesystem \<Rightarrow> int \<times> world" where
  "script ext T fs = (let (r, w) = main ext (start T fs) in (exit_status r, traceback r w))"

section \<open>Reading the log and the files\<close>

text \<open>The commands the process started, and the files it wrote, both in order.\<close>

fun spawned :: "event list \<Rightarrow> str list list" where
  "spawned [] = []"
| "spawned (Spawn cmd # es) = cmd # spawned es"
| "spawned (e # es) = spawned es"

fun written :: "event list \<Rightarrow> (str \<times> str) list" where
  "written [] = []"
| "written (FileWrite path data # es) = (path, data) # written es"
| "written (e # es) = written es"

text \<open>Reading a file back as text: its bytes, decoded as UTF-8.\<close>

definition read_back :: "str \<Rightarrow> filesystem \<Rightarrow> str option" where
  "read_back path fs = (case fs path of None \<Rightarrow> None | Some bs \<Rightarrow> utf8_decode bs)"

section \<open>Sample environments\<close>

text \<open>
  External tools to run the script against: one that accepts every patch, one that
  rejects every patch the way \<^verbatim>\<open>git apply\<close> does for text that is no patch, one whose
  dry run passes while the real run fails, and two in which a command is killed by signal
  9. None of them touches the patch file.
\<close>

definition accepted :: completed_process where
  "accepted = \<lparr>returncode = 0, cp_stdout = [], cp_stderr = []\<rparr>"

definition no_patch :: completed_process where
  "no_patch =
     \<lparr>returncode = 128, cp_stdout = [], cp_stderr = py ''error: No valid patches in input''\<rparr>"

definition conflict :: completed_process where
  "conflict = \<lparr>returncode = 1, cp_stdout = [], cp_stderr = py ''error: patch failed''\<rparr>"

definition killed :: completed_process where
  "killed = \<lparr>returncode = - 9, cp_stdout = [], cp_stderr = []\<rparr>"

definition git_accepts :: external where
  "git_accepts cmd f = (accepted, f)"

definition git_rejects :: external where
  "git_rejects cmd f = (no_patch, f)"

definition git_check_only :: external where
  "git_check_only cmd f = (if cmd = check_cmd then (accepted, f) else (conflict, f))"

definition git_killed :: external where
  "git_killed cmd f = (killed, f)"

definition git_apply_killed :: external where
  "git_apply_killed cmd f = (if cmd = check_cmd then (accepted, f) else (killed, f))"

section \<open>Whitespace\<close>

text \<open>
  The test \<^verbatim>\<open>not patch_text.strip()\<close> succeeds exactly on the texts made of whitespace
  only, the empty text among them.
\<close>

lemma strip_empty_iff: "strip s = [] \<longleftrightarrow> list_all isspace s"
proof
  assume "strip s = []"
  then have a: "\<forall>x\<in>set (dropWhile isspace s). isspace x"
    by (simp add: strip_def)
  have "dropWhile isspace s = []"
  proof (rule ccontr)
    assume n: "dropWhile isspace s \<noteq> []"
    then have "\<not> isspace (hd (dropWhile isspace s))"
      by (rule hd_dropWhile)
    moreover from n have "hd (dropWhile isspace s) \<in> set (dropWhile isspace s)"
      by simp
    ultimately show False
      using a by blast
  qed
  then show "list_all isspace s"
    by (simp add: list_all_iff)
next
  assume "list_all isspace s"
  then have "dropWhile isspace s = []"
    by (simp add: list_all_iff)
  then show "strip s = []"
    unfolding strip_def by (simp del: dropWhile_eq_Nil_conv)
qed




section \<open>UTF-8 round trips\<close>

text \<open>
  Decoding what the encoder produced gives the text back, and encoding what the decoder
  accepted gives the bytes back: on encodable text and valid bytes the two are inverse.
\<close>

lemma split_three: "(c::nat) div 4096 * 4096 + c div 64 mod 64 * 64 + c mod 64 = c"
proof -
  have a: "c div 4096 = c div 64 div 64"
    by (simp add: div_mult2_eq)
  have b: "c div 64 * 64 + c mod 64 = c"
    by simp
  have d: "c div 64 div 64 * 64 + c div 64 mod 64 = c div 64"
    by simp
  from b d show ?thesis
    unfolding a by linarith
qed

lemma split_four:
  "(c::nat) div 262144 * 262144 + c div 4096 mod 64 * 4096 + c div 64 mod 64 * 64 + c mod 64 = c"
proof -
  have a: "c div 262144 = c div 4096 div 64"
    by (simp add: div_mult2_eq)
  have b: "c div 4096 div 64 * 64 + c div 4096 mod 64 = c div 4096"
    by simp
  have "c div 4096 * 4096 + c div 64 mod 64 * 64 + c mod 64 = c"
    by (rule split_three)
  with b show ?thesis
    unfolding a by linarith
qed

lemma decode_ascii:
  assumes "c < 128"
  shows "utf8_decode (char_of c # rest) = map_option ((#) c) (utf8_decode rest)"
  using assms by simp

lemma decode_two:
  assumes "128 \<le> c" and "c < 2048"
  shows "utf8_decode (char_of (192 + c div 64) # char_of (128 + c mod 64) # rest) =
         map_option ((#) c) (utf8_decode rest)"
proof -
  define x where "x = 192 + c div 64"
  define y where "y = 128 + c mod 64"
  from assms have x: "194 \<le> x" "x < 224"
    by (simp_all add: x_def)
  have y: "128 \<le> y" "y < 192"
    by (simp_all add: y_def)
  have c: "(x - 192) * 64 + (y - 128) = c"
    by (simp add: x_def y_def)
  from x have ox: "(of_char (char_of x) :: nat) = x"
    by simp
  from y have oy: "(of_char (char_of y) :: nat) = y"
    by simp
  from x y c show ?thesis
    unfolding x_def [symmetric] y_def [symmetric]
    by (simp add: ox oy continuation_def low6_def del: of_char_of)
qed


lemma decode_three:
  assumes "2048 \<le> c" and "c < 65536" and "\<not> (55296 \<le> c \<and> c \<le> 57343)"
  shows "utf8_decode (char_of (224 + c div 4096) # char_of (128 + c div 64 mod 64) #
           char_of (128 + c mod 64) # rest) =
         map_option ((#) c) (utf8_decode rest)"
proof -
  define x where "x = 224 + c div 4096"
  define y where "y = 128 + c div 64 mod 64"
  define z where "z = 128 + c mod 64"
  from assms have x: "224 \<le> x" "x < 240"
    by (simp_all add: x_def)
  have y: "128 \<le> y" "y < 192"
    by (simp_all add: y_def)
  have z: "128 \<le> z" "z < 192"
    by (simp_all add: z_def)
  have c: "(x - 224) * 4096 + (y - 128) * 64 + (z - 128) = c"
    by (simp add: x_def y_def z_def split_three)
  from x have ox: "(of_char (char_of x) :: nat) = x"
    by simp
  from y have oy: "(of_char (char_of y) :: nat) = y"
    by simp
  from z have oz: "(of_char (char_of z) :: nat) = z"
    by simp
  from x y z c assms show ?thesis
    unfolding x_def [symmetric] y_def [symmetric] z_def [symmetric]
    by (simp add: ox oy oz continuation_def low6_def del: of_char_of)
qed

lemma decode_four:
  assumes "65536 \<le> c" and "c < 1114112"
  shows "utf8_decode (char_of (240 + c div 262144) # char_of (128 + c div 4096 mod 64) #
           char_of (128 + c div 64 mod 64) # char_of (128 + c mod 64) # rest) =
         map_option ((#) c) (utf8_decode rest)"
proof -
  define x where "x = 240 + c div 262144"
  define y where "y = 128 + c div 4096 mod 64"
  define z where "z = 128 + c div 64 mod 64"
  define u where "u = 128 + c mod 64"
  from assms have x: "240 \<le> x" "x < 245"
    by (simp_all add: x_def)
  have y: "128 \<le> y" "y < 192"
    by (simp_all add: y_def)
  have z: "128 \<le> z" "z < 192"
    by (simp_all add: z_def)
  have u: "128 \<le> u" "u < 192"
    by (simp_all add: u_def)
  have c: "(x - 240) * 262144 + (y - 128) * 4096 + (z - 128) * 64 + (u - 128) = c"
    by (simp add: x_def y_def z_def u_def split_four)
  from x have ox: "(of_char (char_of x) :: nat) = x"
    by simp
  from y have oy: "(of_char (char_of y) :: nat) = y"
    by simp
  from z have oz: "(of_char (char_of z) :: nat) = z"
    by simp
  from u have ou: "(of_char (char_of u) :: nat) = u"
    by simp
  from x y z u c assms show ?thesis
    unfolding x_def [symmetric] y_def [symmetric] z_def [symmetric] u_def [symmetric]
    by (simp add: ox oy oz ou continuation_def low6_def del: of_char_of)
qed

lemma utf8_char_decode:
  assumes "utf8_char c = Some cs"
  shows "utf8_decode (cs @ rest) = map_option ((#) c) (utf8_decode rest)"
proof -
  consider "c < 128" | "128 \<le> c" "c < 2048"
    | "2048 \<le> c" "c < 65536" "\<not> (55296 \<le> c \<and> c \<le> 57343)"
    | "55296 \<le> c" "c \<le> 57343" | "65536 \<le> c" "c < 1114112" | "1114112 \<le> c"
    by linarith
  then show ?thesis
  proof cases
    case 1
    with assms have "cs = [char_of c]"
      by (simp add: utf8_char_def)
    with 1 show ?thesis
      by (simp add: decode_ascii)
  next
    case 2
    with assms have "cs = [char_of (192 + c div 64), char_of (128 + c mod 64)]"
      by (simp add: utf8_char_def)
    with 2 show ?thesis
      by (simp add: decode_two del: utf8_decode.simps)
  next
    case 3
    with assms have "cs = [char_of (224 + c div 4096), char_of (128 + c div 64 mod 64),
        char_of (128 + c mod 64)]"
      by (auto simp: utf8_char_def)
    with 3 show ?thesis
      by (simp add: decode_three del: utf8_decode.simps)
  next
    case 4
    with assms show ?thesis
      by (simp add: utf8_char_def)
  next
    case 5
    with assms have "cs = [char_of (240 + c div 262144), char_of (128 + c div 4096 mod 64),
        char_of (128 + c div 64 mod 64), char_of (128 + c mod 64)]"
      by (simp add: utf8_char_def)
    with 5 show ?thesis
      by (simp add: decode_four del: utf8_decode.simps)
  next
    case 6
    with assms show ?thesis
      by (simp add: utf8_char_def)
  qed
qed

lemma utf8_decode_encode:
  "utf8_encode T = Some bs \<Longrightarrow> utf8_decode bs = Some T"
proof (induction T arbitrary: bs)
  case Nil
  then show ?case
    by simp
next
  case (Cons c cs)
  from Cons.prems obtain b1 b2 where
    "utf8_char c = Some b1" "utf8_encode cs = Some b2" "bs = b1 @ b2"
    by (auto split: option.splits)
  with Cons.IH [of b2] show ?case
    by (simp add: utf8_char_decode del: utf8_decode.simps)
qed


lemma digits_two:
  assumes "l < 64"
  shows "(a * 64 + l) div 64 = (a::nat)" and "(a * 64 + l) mod 64 = l"
  using assms by simp_all

lemma digits_three:
  assumes "l1 < 64" and "l2 < 64"
  shows "(a * 4096 + l1 * 64 + l2) div 4096 = (a::nat)"
    and "(a * 4096 + l1 * 64 + l2) div 64 mod 64 = l1"
    and "(a * 4096 + l1 * 64 + l2) mod 64 = l2"
proof -
  have e: "a * 4096 + l1 * 64 + l2 = (a * 64 + l1) * 64 + l2"
    by simp
  have d: "(a * 4096 + l1 * 64 + l2) div 64 = a * 64 + l1"
    unfolding e by (rule digits_two(1) [OF assms(2)])
  show "(a * 4096 + l1 * 64 + l2) mod 64 = l2"
    unfolding e by (rule digits_two(2) [OF assms(2)])
  show "(a * 4096 + l1 * 64 + l2) div 64 mod 64 = l1"
    unfolding d by (rule digits_two(2) [OF assms(1)])
  have "(a * 4096 + l1 * 64 + l2) div 4096 = (a * 4096 + l1 * 64 + l2) div 64 div 64"
    by (simp add: div_mult2_eq)
  then show "(a * 4096 + l1 * 64 + l2) div 4096 = a"
    unfolding d by (simp only: digits_two(1) [OF assms(1)])
qed

lemma digits_four:
  assumes "l1 < 64" and "l2 < 64" and "l3 < 64"
  shows "(a * 262144 + l1 * 4096 + l2 * 64 + l3) div 262144 = (a::nat)"
    and "(a * 262144 + l1 * 4096 + l2 * 64 + l3) div 4096 mod 64 = l1"
    and "(a * 262144 + l1 * 4096 + l2 * 64 + l3) div 64 mod 64 = l2"
    and "(a * 262144 + l1 * 4096 + l2 * 64 + l3) mod 64 = l3"
proof -
  have e: "a * 262144 + l1 * 4096 + l2 * 64 + l3 = (a * 64 + l1) * 4096 + l2 * 64 + l3"
    by simp
  from assms(2,3) have d: "(a * 262144 + l1 * 4096 + l2 * 64 + l3) div 4096 = a * 64 + l1"
    unfolding e by (rule digits_three(1))
  from assms(2,3) show "(a * 262144 + l1 * 4096 + l2 * 64 + l3) div 64 mod 64 = l2"
    unfolding e by (rule digits_three(2))
  from assms(2,3) show "(a * 262144 + l1 * 4096 + l2 * 64 + l3) mod 64 = l3"
    unfolding e by (rule digits_three(3))
  show "(a * 262144 + l1 * 4096 + l2 * 64 + l3) div 4096 mod 64 = l1"
    unfolding d by (rule digits_two(2) [OF assms(1)])
  have "(a * 262144 + l1 * 4096 + l2 * 64 + l3) div 262144 =
      (a * 262144 + l1 * 4096 + l2 * 64 + l3) div 4096 div 64"
    by (simp add: div_mult2_eq)
  then show "(a * 262144 + l1 * 4096 + l2 * 64 + l3) div 262144 = a"
    unfolding d by (simp only: digits_two(1) [OF assms(1)])
qed

lemma encode_two:
  assumes "194 \<le> (of_char b :: nat)" and "(of_char b :: nat) < 224" and "continuation b1"
  shows "utf8_char ((of_char b - 192) * 64 + low6 b1) = Some [b, b1]"
proof -
  define a where "a = (of_char b :: nat) - 192"
  define l where "l = low6 b1"
  from assms(3) have l: "l < 64"
    unfolding l_def low6_def continuation_def by arith
  from assms(1,2) have a: "2 \<le> a" "a < 32"
    by (simp_all add: a_def)
  from a l have range: "128 \<le> a * 64 + l" "a * 64 + l < 2048"
    by simp_all
  from assms(1) have "192 + a = of_char b"
    by (simp add: a_def)
  then have b: "char_of (192 + a) = b"
    by simp
  from assms(3) have "128 + l = of_char b1"
    unfolding l_def low6_def continuation_def by arith
  then have b1: "char_of (128 + l) = b1"
    by simp
  from range show ?thesis
    unfolding a_def [symmetric] l_def [symmetric]
    by (simp add: utf8_char_def digits_two [OF l] l b b1)
qed

lemma encode_three:
  assumes "224 \<le> (of_char b :: nat)" and "(of_char b :: nat) < 240"
    and "continuation b1" and "continuation b2"
    and "2048 \<le> (of_char b - 224) * 4096 + low6 b1 * 64 + low6 b2"
    and "\<not> (55296 \<le> (of_char b - 224) * 4096 + low6 b1 * 64 + low6 b2 \<and>
            (of_char b - 224) * 4096 + low6 b1 * 64 + low6 b2 \<le> 57343)"
  shows "utf8_char ((of_char b - 224) * 4096 + low6 b1 * 64 + low6 b2) = Some [b, b1, b2]"
proof -
  define a where "a = (of_char b :: nat) - 224"
  define l1 where "l1 = low6 b1"
  define l2 where "l2 = low6 b2"
  define c where "c = a * 4096 + l1 * 64 + l2"
  from assms(3) have l1: "l1 < 64"
    unfolding l1_def low6_def continuation_def by arith
  from assms(4) have l2: "l2 < 64"
    unfolding l2_def low6_def continuation_def by arith
  from assms(1,2) have a: "a < 16"
    by (simp add: a_def)
  from a l1 l2 have upper: "c < 65536"
    by (simp add: c_def)
  from assms(5,6) have lower: "2048 \<le> c" "\<not> (55296 \<le> c \<and> c \<le> 57343)"
    by (simp_all add: c_def a_def l1_def l2_def)
  from assms(1) have "224 + a = of_char b"
    by (simp add: a_def)
  then have b: "char_of (224 + a) = b"
    by simp
  from assms(3) have "128 + l1 = of_char b1"
    unfolding l1_def low6_def continuation_def by arith
  then have b1: "char_of (128 + l1) = b1"
    by simp
  from assms(4) have "128 + l2 = of_char b2"
    unfolding l2_def low6_def continuation_def by arith
  then have b2: "char_of (128 + l2) = b2"
    by simp
  have d: "c div 4096 = a" "c div 64 mod 64 = l1" "c mod 64 = l2"
    unfolding c_def using l1 l2 by (rule digits_three)+
  from upper lower have "utf8_char c = Some [b, b1, b2]"
    by (simp add: utf8_char_def d b b1 b2)
  then show ?thesis
    by (simp add: c_def a_def l1_def l2_def)
qed

lemma encode_four:
  assumes "240 \<le> (of_char b :: nat)" and "(of_char b :: nat) < 245"
    and "continuation b1" and "continuation b2" and "continuation b3"
    and "65536 \<le> (of_char b - 240) * 262144 + low6 b1 * 4096 + low6 b2 * 64 + low6 b3"
    and "(of_char b - 240) * 262144 + low6 b1 * 4096 + low6 b2 * 64 + low6 b3 < 1114112"
  shows "utf8_char ((of_char b - 240) * 262144 + low6 b1 * 4096 + low6 b2 * 64 + low6 b3) =
         Some [b, b1, b2, b3]"
proof -
  define a where "a = (of_char b :: nat) - 240"
  define l1 where "l1 = low6 b1"
  define l2 where "l2 = low6 b2"
  define l3 where "l3 = low6 b3"
  define c where "c = a * 262144 + l1 * 4096 + l2 * 64 + l3"
  from assms(3) have l1: "l1 < 64"
    unfolding l1_def low6_def continuation_def by arith
  from assms(4) have l2: "l2 < 64"
    unfolding l2_def low6_def continuation_def by arith
  from assms(5) have l3: "l3 < 64"
    unfolding l3_def low6_def continuation_def by arith
  from assms(6,7) have range: "65536 \<le> c" "c < 1114112"
    by (simp_all add: c_def a_def l1_def l2_def l3_def)
  from assms(1) have "240 + a = of_char b"
    by (simp add: a_def)
  then have b: "char_of (240 + a) = b"
    by simp
  from assms(3) have "128 + l1 = of_char b1"
    unfolding l1_def low6_def continuation_def by arith
  then have b1: "char_of (128 + l1) = b1"
    by simp
  from assms(4) have "128 + l2 = of_char b2"
    unfolding l2_def low6_def continuation_def by arith
  then have b2: "char_of (128 + l2) = b2"
    by simp
  from assms(5) have "128 + l3 = of_char b3"
    unfolding l3_def low6_def continuation_def by arith
  then have b3: "char_of (128 + l3) = b3"
    by simp
  have d: "c div 262144 = a" "c div 4096 mod 64 = l1" "c div 64 mod 64 = l2" "c mod 64 = l3"
    unfolding c_def using l1 l2 l3 by (rule digits_four)+
  from range have "utf8_char c = Some [b, b1, b2, b3]"
    by (simp add: utf8_char_def d b b1 b2 b3)
  then show ?thesis
    by (simp add: c_def a_def l1_def l2_def l3_def)
qed


lemma utf8_encode_decode:
  "utf8_decode bs = Some T \<Longrightarrow> utf8_encode T = Some bs"
proof (induction bs arbitrary: T rule: length_induct)
  case (1 bs)
  show ?case
  proof (cases bs)
    case Nil
    with "1.prems" show ?thesis
      by simp
  next
    case (Cons b r0)
    define n where "n = (of_char b :: nat)"
    consider "n < 128" | "128 \<le> n" "n < 194" | "194 \<le> n" "n < 224" | "224 \<le> n" "n < 240"
      | "240 \<le> n" "n < 245" | "245 \<le> n"
      by linarith
    then show ?thesis
    proof cases
      case 1
      with "1.prems" Cons obtain T' where t: "utf8_decode r0 = Some T'" "T = n # T'"
        by (auto simp: n_def)
      from "1.IH" Cons t(1) have "utf8_encode T' = Some r0"
        by simp
      moreover from \<open>n < 128\<close> have "utf8_char n = Some [b]"
        by (simp add: utf8_char_def n_def)
      ultimately show ?thesis
        using t(2) Cons by simp
    next
      case 2
      with "1.prems" Cons show ?thesis
        by (simp add: n_def)
    next
      case 3
      with "1.prems" Cons obtain b1 r T' where
        t: "r0 = b1 # r" "continuation b1" "utf8_decode r = Some T'"
           "T = ((n - 192) * 64 + low6 b1) # T'"
        by (auto simp: n_def split: list.splits if_splits)
      from "1.IH" Cons t(1,3) have "utf8_encode T' = Some r"
        by simp
      moreover from 3 t(2) have "utf8_char ((n - 192) * 64 + low6 b1) = Some [b, b1]"
        unfolding n_def by (rule encode_two)
      ultimately show ?thesis
        using t(1,4) Cons by simp
    next
      case 4
      with "1.prems" Cons obtain b1 b2 r T' where
        t: "r0 = b1 # b2 # r" "continuation b1" "continuation b2"
           "2048 \<le> (n - 224) * 4096 + low6 b1 * 64 + low6 b2"
           "\<not> (55296 \<le> (n - 224) * 4096 + low6 b1 * 64 + low6 b2 \<and>
               (n - 224) * 4096 + low6 b1 * 64 + low6 b2 \<le> 57343)"
           "utf8_decode r = Some T'"
           "T = ((n - 224) * 4096 + low6 b1 * 64 + low6 b2) # T'"
        by (auto simp: n_def Let_def split: list.splits if_splits)
      from "1.IH" Cons t(1,6) have "utf8_encode T' = Some r"
        by simp
      moreover from 4 t(2,3,4,5)
      have "utf8_char ((n - 224) * 4096 + low6 b1 * 64 + low6 b2) = Some [b, b1, b2]"
        unfolding n_def by (rule encode_three)
      ultimately show ?thesis
        using t(1,7) Cons by simp
    next
      case 5
      with "1.prems" Cons obtain b1 b2 b3 r T' where
        t: "r0 = b1 # b2 # b3 # r" "continuation b1" "continuation b2" "continuation b3"
           "65536 \<le> (n - 240) * 262144 + low6 b1 * 4096 + low6 b2 * 64 + low6 b3"
           "(n - 240) * 262144 + low6 b1 * 4096 + low6 b2 * 64 + low6 b3 < 1114112"
           "utf8_decode r = Some T'"
           "T = ((n - 240) * 262144 + low6 b1 * 4096 + low6 b2 * 64 + low6 b3) # T'"
        by (auto simp: n_def Let_def split: list.splits if_splits)
      from "1.IH" Cons t(1,7) have "utf8_encode T' = Some r"
        by simp
      moreover from 5 t(2,3,4,5,6)
      have "utf8_char ((n - 240) * 262144 + low6 b1 * 4096 + low6 b2 * 64 + low6 b3) =
          Some [b, b1, b2, b3]"
        unfolding n_def by (rule encode_four)
      ultimately show ?thesis
        using t(1,8) Cons by simp
    next
      case 6
      with "1.prems" Cons show ?thesis
        by (simp add: n_def)
    qed
  qed
qed

section \<open>The five ways a run can go\<close>

text \<open>
  A run is decided by the input and by what the two external commands answer. Each of the
  five lemmas gives the exit status and the whole final world of one kind of run.
\<close>

lemma check_ne_apply: "check_cmd \<noteq> apply_cmd"
  by (simp add: check_cmd_def apply_cmd_def)

lemma apply_ne_check: "apply_cmd \<noteq> check_cmd"
  by (simp add: check_cmd_def apply_cmd_def)

lemma script_blank:
  "strip T = [] \<Longrightarrow>
   script ext T fs =
     (1, \<lparr>stdin = [], files = fs, stdout = [], stderr = usage @ [10],
          events = [StdinRead T, StderrWrite (usage @ [10])]\<rparr>)"
  by (simp add: script_def exit_status_def traceback_def main_def start_def stdin_read_def
      print_stderr_def stderr_write_def)

lemma script_unencodable:
  "strip T \<noteq> [] \<Longrightarrow> utf8_encode T = None \<Longrightarrow>
   script ext T fs =
     (1, \<lparr>stdin = [], files = fs(patch_path \<mapsto> []), stdout = [], stderr = [],
          events = [StdinRead T, FileWrite patch_path T, Traceback UnicodeEncodeError]\<rparr>)"
  by (simp add: script_def exit_status_def traceback_def main_def start_def stdin_read_def
      write_text_def)

lemma script_check_fails:
  "strip T \<noteq> [] \<Longrightarrow> utf8_encode T = Some bs \<Longrightarrow>
   ext check_cmd (fs(patch_path \<mapsto> bs)) = (p, fs1) \<Longrightarrow> returncode p \<noteq> 0 \<Longrightarrow>
   script ext T fs =
     (returncode p mod 256,
      \<lparr>stdin = [], files = fs1, stdout = [], stderr = cp_stdout p @ cp_stderr p,
       events = [StdinRead T, FileWrite patch_path T, Spawn check_cmd, Completed check_cmd p,
                 StderrWrite (cp_stdout p), StderrWrite (cp_stderr p)]\<rparr>)"
  by (simp add: script_def exit_status_def traceback_def main_def start_def stdin_read_def
      write_text_def run_def subprocess_run_def stderr_write_def)

lemma script_apply_fails:
  "strip T \<noteq> [] \<Longrightarrow> utf8_encode T = Some bs \<Longrightarrow>
   ext check_cmd (fs(patch_path \<mapsto> bs)) = (p, fs1) \<Longrightarrow> returncode p = 0 \<Longrightarrow>
   ext apply_cmd fs1 = (q, fs2) \<Longrightarrow> returncode q \<noteq> 0 \<Longrightarrow>
   script ext T fs =
     (returncode q mod 256,
      \<lparr>stdin = [], files = fs2, stdout = [], stderr = cp_stdout q @ cp_stderr q,
       events = [StdinRead T, FileWrite patch_path T, Spawn check_cmd, Completed check_cmd p,
                 Spawn apply_cmd, Completed apply_cmd q,
                 StderrWrite (cp_stdout q), StderrWrite (cp_stderr q)]\<rparr>)"
  by (simp add: script_def exit_status_def traceback_def main_def start_def stdin_read_def
      write_text_def run_def subprocess_run_def stderr_write_def)

lemma script_success:
  "strip T \<noteq> [] \<Longrightarrow> utf8_encode T = Some bs \<Longrightarrow>
   ext check_cmd (fs(patch_path \<mapsto> bs)) = (p, fs1) \<Longrightarrow> returncode p = 0 \<Longrightarrow>
   ext apply_cmd fs1 = (q, fs2) \<Longrightarrow> returncode q = 0 \<Longrightarrow>
   script ext T fs =
     (0,
      \<lparr>stdin = [], files = fs2, stdout = py ''Applied patch: '' @ patch_path @ [10], stderr = [],
       events = [StdinRead T, FileWrite patch_path T, Spawn check_cmd, Completed check_cmd p,
                 Spawn apply_cmd, Completed apply_cmd q,
                 StdoutWrite (py ''Applied patch: '' @ patch_path @ [10])]\<rparr>)"
  by (simp add: script_def exit_status_def traceback_def main_def start_def stdin_read_def
      write_text_def run_def subprocess_run_def print_stdout_def stdout_write_def)

lemma script_cases [case_names blank unencodable check_fails apply_fails success]:
  obtains
    (blank) "strip T = []"
  | (unencodable) "strip T \<noteq> []" "utf8_encode T = None"
  | (check_fails) bs p fs1 where "strip T \<noteq> []" "utf8_encode T = Some bs"
      "ext check_cmd (fs(patch_path \<mapsto> bs)) = (p, fs1)" "returncode p \<noteq> 0"
  | (apply_fails) bs p fs1 q fs2 where "strip T \<noteq> []" "utf8_encode T = Some bs"
      "ext check_cmd (fs(patch_path \<mapsto> bs)) = (p, fs1)" "returncode p = 0"
      "ext apply_cmd fs1 = (q, fs2)" "returncode q \<noteq> 0"
  | (success) bs p fs1 q fs2 where "strip T \<noteq> []" "utf8_encode T = Some bs"
      "ext check_cmd (fs(patch_path \<mapsto> bs)) = (p, fs1)" "returncode p = 0"
      "ext apply_cmd fs1 = (q, fs2)" "returncode q = 0"
proof (cases "strip T = []")
  case True
  then show ?thesis
    by (rule blank)
next
  case nb: False
  show ?thesis
  proof (cases "utf8_encode T")
    case None
    with nb show ?thesis
      by (rule unencodable)
  next
    case (Some bs)
    obtain p fs1 where c: "ext check_cmd (fs(patch_path \<mapsto> bs)) = (p, fs1)"
      by (cases "ext check_cmd (fs(patch_path \<mapsto> bs))")
    obtain q fs2 where a: "ext apply_cmd fs1 = (q, fs2)"
      by (cases "ext apply_cmd fs1")
    show ?thesis
    proof (cases "returncode p = 0")
      case p0: True
      show ?thesis
      proof (cases "returncode q = 0")
        case True
        with nb Some c p0 a show ?thesis
          by (rule success)
      next
        case False
        with nb Some c p0 a show ?thesis
          by (rule apply_fails)
      qed
    next
      case False
      with nb Some c show ?thesis
        by (rule check_fails)
    qed
  qed
qed

section \<open>Sample runs\<close>

lemma sample_not_blank: "strip (py ''not a patch'') \<noteq> []"
  by (simp add: strip_def py_def isspace_def)

lemma sample_bytes: "utf8_encode (py ''not a patch'') = Some ''not a patch''"
  by code_simp

lemma sample_blank: "list_all isspace [32, 9, 10]"
  by (simp add: isspace_def)

lemma sample_padded: "strip [32, 120, 10] = [120]"
  by (simp add: strip_def isspace_def)

lemma sample_padded_bytes: "utf8_encode [32, 120, 10] = Some [CHR 0x20, CHR ''x'', CHR 0x0A]"
  by code_simp

lemma sample_surrogate: "strip [56575] \<noteq> []" "utf8_encode [56575] = None"
  by (simp_all add: strip_def isspace_def utf8_char_def)

lemma script_git_rejects:
  "strip T \<noteq> [] \<Longrightarrow> utf8_encode T = Some bs \<Longrightarrow>
   script git_rejects T fs =
     (128,
      \<lparr>stdin = [], files = fs(patch_path \<mapsto> bs), stdout = [],
       stderr = py ''error: No valid patches in input'',
       events = [StdinRead T, FileWrite patch_path T, Spawn check_cmd,
                 Completed check_cmd no_patch,
                 StderrWrite [], StderrWrite (py ''error: No valid patches in input'')]\<rparr>)"
  using script_check_fails [of T bs git_rejects fs no_patch "fs(patch_path \<mapsto> bs)"]
  by (simp add: git_rejects_def no_patch_def)

lemma script_git_killed:
  "strip T \<noteq> [] \<Longrightarrow> utf8_encode T = Some bs \<Longrightarrow>
   script git_killed T fs =
     (247,
      \<lparr>stdin = [], files = fs(patch_path \<mapsto> bs), stdout = [], stderr = [],
       events = [StdinRead T, FileWrite patch_path T, Spawn check_cmd,
                 Completed check_cmd killed, StderrWrite [], StderrWrite []]\<rparr>)"
  using script_check_fails [of T bs git_killed fs killed "fs(patch_path \<mapsto> bs)"]
  by (simp add: git_killed_def killed_def)

lemma script_git_check_only:
  "strip T \<noteq> [] \<Longrightarrow> utf8_encode T = Some bs \<Longrightarrow>
   script git_check_only T fs =
     (1,
      \<lparr>stdin = [], files = fs(patch_path \<mapsto> bs), stdout = [],
       stderr = py ''error: patch failed'',
       events = [StdinRead T, FileWrite patch_path T, Spawn check_cmd,
                 Completed check_cmd accepted, Spawn apply_cmd, Completed apply_cmd conflict,
                 StderrWrite [], StderrWrite (py ''error: patch failed'')]\<rparr>)"
  using script_apply_fails [of T bs git_check_only fs accepted "fs(patch_path \<mapsto> bs)" conflict
      "fs(patch_path \<mapsto> bs)"]
  by (simp add: git_check_only_def accepted_def conflict_def apply_ne_check)

lemma script_git_apply_killed:
  "strip T \<noteq> [] \<Longrightarrow> utf8_encode T = Some bs \<Longrightarrow>
   script git_apply_killed T fs =
     (247,
      \<lparr>stdin = [], files = fs(patch_path \<mapsto> bs), stdout = [], stderr = [],
       events = [StdinRead T, FileWrite patch_path T, Spawn check_cmd,
                 Completed check_cmd accepted, Spawn apply_cmd, Completed apply_cmd killed,
                 StderrWrite [], StderrWrite []]\<rparr>)"
  using script_apply_fails [of T bs git_apply_killed fs accepted "fs(patch_path \<mapsto> bs)" killed
      "fs(patch_path \<mapsto> bs)"]
  by (simp add: git_apply_killed_def accepted_def killed_def apply_ne_check)

lemma script_git_accepts:
  "strip T \<noteq> [] \<Longrightarrow> utf8_encode T = Some bs \<Longrightarrow>
   script git_accepts T fs =
     (0,
      \<lparr>stdin = [], files = fs(patch_path \<mapsto> bs),
       stdout = py ''Applied patch: '' @ patch_path @ [10], stderr = [],
       events = [StdinRead T, FileWrite patch_path T, Spawn check_cmd,
                 Completed check_cmd accepted, Spawn apply_cmd, Completed apply_cmd accepted,
                 StdoutWrite (py ''Applied patch: '' @ patch_path @ [10])]\<rparr>)"
  using script_success [of T bs git_accepts fs accepted "fs(patch_path \<mapsto> bs)" accepted
      "fs(patch_path \<mapsto> bs)"]
  by (simp add: git_accepts_def accepted_def)

lemma confirmation_text:
  "py ''Applied patch: '' @ patch_path @ [10] = py ''Applied patch: /tmp/tiara_patch.patch'' @ [10]"
  by (simp add: py_def patch_path_def)

section \<open>What the file holds\<close>

text \<open>
  Facts the claims about the patch file share: the bytes a write stores, the one write a
  run that is not blank makes, the file system the dry run is started in, and the file at
  the end of a run whose external commands leave it alone.
\<close>

lemma utf8_decode_unique:
  assumes "utf8_encode T = Some bs" and "utf8_decode B = Some T"
  shows "B = bs"
proof -
  from assms(2) have "utf8_encode T = Some B"
    by (rule utf8_encode_decode)
  with assms(1) show ?thesis
    by simp
qed

lemma write_text_stores:
  "utf8_encode T = Some bs \<Longrightarrow> files (snd (write_text path T w)) path = Some bs"
  by (simp add: write_text_def)


lemma dry_run_finds_bytes:
  assumes "strip T \<noteq> []" and "utf8_encode T = Some bs"
  shows "Completed check_cmd (fst (ext check_cmd (fs(patch_path \<mapsto> bs))))
           \<in> set (events (snd (script ext T fs)))"
proof (cases rule: script_cases [where T = T and ext = ext and fs = fs])
  case blank
  with assms show ?thesis
    by simp
next
  case unencodable
  with assms show ?thesis
    by simp
next
  case (check_fails bs' p fs1)
  with assms(2) have e: "bs' = bs"
    by simp
  note run = check_fails [unfolded e]
  show ?thesis
    by (simp add: script_check_fails [where ext = ext and fs = fs, OF run] run(3))
next
  case (apply_fails bs' p fs1 q fs2)
  with assms(2) have e: "bs' = bs"
    by simp
  note run = apply_fails [unfolded e]
  show ?thesis
    by (simp add: script_apply_fails [where ext = ext and fs = fs, OF run] run(3))
next
  case (success bs' p fs1 q fs2)
  with assms(2) have e: "bs' = bs"
    by simp
  note run = success [unfolded e]
  show ?thesis
    by (simp add: script_success [where ext = ext and fs = fs, OF run] run(3))
qed

lemma bytes_at_exit:
  assumes "strip T \<noteq> []" and "utf8_encode T = Some bs"
    and alone: "\<forall>cmd f. snd (ext cmd f) patch_path = f patch_path"
  shows "files (snd (script ext T fs)) patch_path = Some bs"
proof -
  from alone have found: "snd (ext check_cmd (fs(patch_path \<mapsto> bs))) patch_path = Some bs"
    by simp
  show ?thesis
  proof (cases rule: script_cases [where T = T and ext = ext and fs = fs])
    case blank
    with assms show ?thesis
      by simp
  next
    case unencodable
    with assms show ?thesis
      by simp
  next
    case (check_fails bs' p fs1)
    with assms(2) have e: "bs' = bs"
      by simp
    note run = check_fails [unfolded e]
    from found have "fs1 patch_path = Some bs"
      by (simp add: run(3))
    then show ?thesis
      by (simp add: script_check_fails [where ext = ext and fs = fs, OF run])
  next
    case (apply_fails bs' p fs1 q fs2)
    with assms(2) have e: "bs' = bs"
      by simp
    note run = apply_fails [unfolded e]
    from found have "fs1 patch_path = Some bs"
      by (simp add: run(3))
    with alone have "snd (ext apply_cmd fs1) patch_path = Some bs"
      by simp
    then have "fs2 patch_path = Some bs"
      by (simp add: run(5))
    then show ?thesis
      by (simp add: script_apply_fails [where ext = ext and fs = fs, OF run])
  next
    case (success bs' p fs1 q fs2)
    with assms(2) have e: "bs' = bs"
      by simp
    note run = success [unfolded e]
    from found have "fs1 patch_path = Some bs"
      by (simp add: run(3))
    with alone have "snd (ext apply_cmd fs1) patch_path = Some bs"
      by simp
    then have "fs2 patch_path = Some bs"
      by (simp add: run(5))
    then show ?thesis
      by (simp add: script_success [where ext = ext and fs = fs, OF run])
  qed
qed

section \<open>Blank input\<close>

text \<open>
  Claim C3. When the input is empty or made of whitespace only, the process writes the
  usage message (and a line feed) to standard error, ends with status 1, and starts no
  external command.
\<close>

theorem blank_input_usage_error:
  assumes "list_all isspace T"
  shows "fst (script ext T fs) = 1 \<and>
         stderr (snd (script ext T fs)) =
           py ''No patch text on stdin. Paste diff and end with Ctrl-D.'' @ [10] \<and>
         stdout (snd (script ext T fs)) = [] \<and>
         spawned (events (snd (script ext T fs))) = []"
proof -
  from assms have "strip T = []"
    by (simp add: strip_empty_iff)
  then show ?thesis
    by (simp add: script_blank usage_def)
qed

theorem blank_input_usage_error_witness:
  "list_all isspace [32, 9, 10] \<and>
   fst (script git_accepts [32, 9, 10] Map.empty) = 1 \<and>
   stderr (snd (script git_accepts [32, 9, 10] Map.empty)) =
     py ''No patch text on stdin. Paste diff and end with Ctrl-D.'' @ [10] \<and>
   spawned (events (snd (script git_accepts [32, 9, 10] Map.empty))) = []"
  using blank_input_usage_error [OF sample_blank, of git_accepts Map.empty] sample_blank
  by simp

text \<open>
  Claim C8. When the input is empty or made of whitespace only, the process ends before
  the write: the file system at the end is the one it found, the patch file included, and
  the log holds no file write.
\<close>

theorem blank_input_leaves_files_untouched:
  assumes "list_all isspace T"
  shows "files (snd (script ext T fs)) = fs \<and> written (events (snd (script ext T fs))) = []"
proof -
  from assms have "strip T = []"
    by (simp add: strip_empty_iff)
  then show ?thesis
    by (simp add: script_blank)
qed

theorem blank_input_leaves_files_untouched_witness:
  "list_all isspace [32, 9, 10] \<and>
   files (snd (script git_accepts [32, 9, 10] [patch_path \<mapsto> ''earlier patch'']))
     patch_path = Some ''earlier patch'' \<and>
   written (events (snd (script git_accepts [32, 9, 10] [patch_path \<mapsto> ''earlier patch'']))) = []"
  using blank_input_leaves_files_untouched [OF sample_blank, of git_accepts
      "[patch_path \<mapsto> ''earlier patch'']"] sample_blank
  by simp

section \<open>The patch file\<close>

text \<open>
  Claim C1, as the code has it. Let \<open>T\<close> be an input that is not blank and that UTF-8
  can encode, to the bytes \<open>bs\<close>. Writing \<open>T\<close> to the fixed path stores \<open>bs\<close>, and
  reading the path back gives exactly \<open>T\<close>. The dry run is started in the file system
  where the path holds \<open>bs\<close>. When the external commands leave the file as they find
  it, the path holds \<open>bs\<close> at the end of the run, whatever was stored there before. And
  \<open>bs\<close> are the only bytes that decode to \<open>T\<close>: if the interpreter got \<open>T\<close> by decoding
  UTF-8 input, the file is that input, byte for byte.
\<close>

theorem persisted_copy_is_the_input:
  assumes "strip T \<noteq> []" and "utf8_encode T = Some bs"
  shows "files (snd (write_text patch_path T w)) patch_path = Some bs \<and>
         read_back patch_path (files (snd (write_text patch_path T w))) = Some T \<and>
         Completed check_cmd (fst (ext check_cmd (fs(patch_path \<mapsto> bs))))
           \<in> set (events (snd (script ext T fs))) \<and>
         ((\<forall>cmd f. snd (ext cmd f) patch_path = f patch_path) \<longrightarrow>
            files (snd (script ext T fs)) patch_path = Some bs \<and>
            read_back patch_path (files (snd (script ext T fs))) = Some T) \<and>
         (\<forall>B. utf8_decode B = Some T \<longrightarrow> B = bs)"
proof -
  from assms(2) have d: "utf8_decode bs = Some T"
    by (rule utf8_decode_encode)
  from assms(2) have w: "files (snd (write_text patch_path T w)) patch_path = Some bs"
    by (rule write_text_stores)
  with d have r: "read_back patch_path (files (snd (write_text patch_path T w))) = Some T"
    by (simp add: read_back_def)
  from assms have g: "Completed check_cmd (fst (ext check_cmd (fs(patch_path \<mapsto> bs))))
      \<in> set (events (snd (script ext T fs)))"
    by (rule dry_run_finds_bytes)
  have x: "(\<forall>cmd f. snd (ext cmd f) patch_path = f patch_path) \<longrightarrow>
      files (snd (script ext T fs)) patch_path = Some bs \<and>
      read_back patch_path (files (snd (script ext T fs))) = Some T"
  proof
    assume "\<forall>cmd f. snd (ext cmd f) patch_path = f patch_path"
    with assms have "files (snd (script ext T fs)) patch_path = Some bs"
      by (rule bytes_at_exit)
    with d show "files (snd (script ext T fs)) patch_path = Some bs \<and>
        read_back patch_path (files (snd (script ext T fs))) = Some T"
      by (simp add: read_back_def)
  qed
  from assms(2) have u: "\<forall>B. utf8_decode B = Some T \<longrightarrow> B = bs"
    by (blast intro: utf8_decode_unique)
  from w r g x u show ?thesis
    by blast
qed

theorem persisted_copy_is_the_input_witness:
  "strip [32, 120, 10] \<noteq> [] \<and>
   utf8_encode [32, 120, 10] = Some [CHR 0x20, CHR ''x'', CHR 0x0A] \<and>
   read_back patch_path (files (snd (write_text patch_path [32, 120, 10] (start [] Map.empty))))
     = Some [32, 120, 10] \<and>
   files (snd (script git_accepts [32, 120, 10] [patch_path \<mapsto> ''earlier patch'']))
     patch_path = Some [CHR 0x20, CHR ''x'', CHR 0x0A] \<and>
   read_back patch_path
     (files (snd (script git_accepts [32, 120, 10] [patch_path \<mapsto> ''earlier patch''])))
     = Some [32, 120, 10]"
proof -
  have n: "strip [32, 120, 10] \<noteq> []"
    by (simp add: sample_padded)
  have alone: "\<forall>cmd f. snd (git_accepts cmd f) patch_path = f patch_path"
    by (simp add: git_accepts_def)
  from persisted_copy_is_the_input [OF n sample_padded_bytes, of "start [] Map.empty" git_accepts
      "[patch_path \<mapsto> ''earlier patch'']"] alone n sample_padded_bytes
  show ?thesis
    by blast
qed

text \<open>
  The claim does not hold for every input that is not empty. The text U+DCFF, which
  standard input yields for the byte \<^verbatim>\<open>ff\<close> under a POSIX locale, is not blank; the script
  calls \<^verbatim>\<open>write_text\<close> with it, the call raises, and the file is left empty: reading it
  back gives the empty text, and the process ends with status 1.
\<close>

theorem lone_surrogate_counterexample:
  "[56575] \<noteq> ([] :: str) \<and>
   strip [56575] \<noteq> [] \<and>
   written (events (snd (script git_accepts [56575] Map.empty))) = [(patch_path, [56575])] \<and>
   files (snd (script git_accepts [56575] Map.empty)) patch_path = Some [] \<and>
   read_back patch_path (files (snd (script git_accepts [56575] Map.empty))) = Some [] \<and>
   read_back patch_path (files (snd (script git_accepts [56575] Map.empty))) \<noteq> Some [56575] \<and>
   fst (script git_accepts [56575] Map.empty) = 1"
  by (simp add: script_unencodable [OF sample_surrogate] sample_surrogate read_back_def)



text \<open>
  Claim C9. Whatever the input, the file system and the external commands are, every
  file the process writes is \<^verbatim>\<open>/tmp/tiara_patch.patch\<close>, and every command it starts is
  one of the two \<^verbatim>\<open>git apply\<close> commands, with that same path as its last argument.
\<close>

theorem patch_path_is_fixed:
  "(\<forall>(path, data) \<in> set (written (events (snd (script ext T fs)))).
      path = py ''/tmp/tiara_patch.patch'') \<and>
   (\<forall>cmd \<in> set (spawned (events (snd (script ext T fs)))).
      last cmd = py ''/tmp/tiara_patch.patch'' \<and>
      (cmd = [py ''git'', py ''apply'', py ''--check'', py ''/tmp/tiara_patch.patch''] \<or>
       cmd = [py ''git'', py ''apply'', py ''/tmp/tiara_patch.patch'']))"
proof (cases rule: script_cases [where T = T and ext = ext and fs = fs])
  case blank
  then show ?thesis
    by (simp add: script_blank)
next
  case unencodable
  then show ?thesis
    by (simp add: script_unencodable patch_path_def)
next
  case (check_fails bs p fs1)
  then show ?thesis
    by (simp add: script_check_fails [where ext = ext and fs = fs, OF check_fails]
        check_cmd_def patch_path_def)
next
  case (apply_fails bs p fs1 q fs2)
  then show ?thesis
    by (simp add: script_apply_fails [where ext = ext and fs = fs, OF apply_fails]
        check_cmd_def apply_cmd_def patch_path_def)
next
  case (success bs p fs1 q fs2)
  then show ?thesis
    by (simp add: script_success [where ext = ext and fs = fs, OF success]
        check_cmd_def apply_cmd_def patch_path_def)
qed

theorem patch_path_is_fixed_witness:
  "map fst (written (events (snd (script git_accepts (py ''not a patch'') Map.empty)))) =
     [py ''/tmp/tiara_patch.patch''] \<and>
   map last (spawned (events (snd (script git_accepts (py ''not a patch'') Map.empty)))) =
     [py ''/tmp/tiara_patch.patch'', py ''/tmp/tiara_patch.patch'']"
  using patch_path_is_fixed [of git_accepts "py ''not a patch''" Map.empty]
  by (simp add: script_git_accepts [OF sample_not_blank sample_bytes] check_cmd_def apply_cmd_def)

text \<open>
  Claim C7. The process never deletes the patch file. Its own effect on the file system
  is the one write (see \<open>script_unencodable\<close>, \<open>script_check_fails\<close>,
  \<open>script_apply_fails\<close> and \<open>script_success\<close>: the final files are what the external
  commands leave of the written file system). So when no external command removes the
  file, a file that was there at the start or has been written is there when the process
  ends, however the run ends.
\<close>

theorem temp_file_never_deleted:
  assumes "\<forall>cmd f. patch_path \<in> dom f \<longrightarrow> patch_path \<in> dom (snd (ext cmd f))"
    and "patch_path \<in> dom fs \<or> (patch_path, c) \<in> set (written (events (snd (script ext T fs))))"
  shows "patch_path \<in> dom (files (snd (script ext T fs)))"
proof (cases rule: script_cases [where T = T and ext = ext and fs = fs])
  case blank
  with assms(2) show ?thesis
    by (simp add: script_blank)
next
  case unencodable
  then show ?thesis
    by (simp add: script_unencodable)
next
  case (check_fails bs p fs1)
  from assms(1) have "patch_path \<in> dom (snd (ext check_cmd (fs(patch_path \<mapsto> bs))))"
    by simp
  then show ?thesis
    by (simp add: script_check_fails [where ext = ext and fs = fs, OF check_fails] check_fails(3))
next
  case (apply_fails bs p fs1 q fs2)
  from assms(1) have "patch_path \<in> dom (snd (ext check_cmd (fs(patch_path \<mapsto> bs))))"
    by simp
  then have "patch_path \<in> dom fs1"
    by (simp add: apply_fails(3))
  with assms(1) have "patch_path \<in> dom (snd (ext apply_cmd fs1))"
    by blast
  then show ?thesis
    by (simp add: script_apply_fails [where ext = ext and fs = fs, OF apply_fails] apply_fails(5))
next
  case (success bs p fs1 q fs2)
  from assms(1) have "patch_path \<in> dom (snd (ext check_cmd (fs(patch_path \<mapsto> bs))))"
    by simp
  then have "patch_path \<in> dom fs1"
    by (simp add: success(3))
  with assms(1) have "patch_path \<in> dom (snd (ext apply_cmd fs1))"
    by blast
  then show ?thesis
    by (simp add: script_success [where ext = ext and fs = fs, OF success] success(5))
qed

theorem temp_file_never_deleted_witness:
  "(patch_path, py ''not a patch'')
     \<in> set (written (events (snd (script git_rejects (py ''not a patch'') Map.empty)))) \<and>
   fst (script git_rejects (py ''not a patch'') Map.empty) = 128 \<and>
   patch_path \<in> dom (files (snd (script git_rejects (py ''not a patch'') Map.empty)))"
proof -
  have keeps: "\<forall>cmd f. patch_path \<in> dom f \<longrightarrow> patch_path \<in> dom (snd (git_rejects cmd f))"
    by (simp add: git_rejects_def)
  have wrote: "(patch_path, py ''not a patch'')
     \<in> set (written (events (snd (script git_rejects (py ''not a patch'') Map.empty))))"
    by (simp add: script_git_rejects [OF sample_not_blank sample_bytes])
  then have "patch_path \<in> dom Map.empty \<or> (patch_path, py ''not a patch'')
     \<in> set (written (events (snd (script git_rejects (py ''not a patch'') Map.empty))))"
    by (rule disjI2)
  with keeps have "patch_path \<in> dom (files (snd (script git_rejects (py ''not a patch'') Map.empty)))"
    by (rule temp_file_never_deleted)
  with wrote show ?thesis
    by (simp add: script_git_rejects [OF sample_not_blank sample_bytes])
qed

section \<open>Failure of an external command\<close>

text \<open>
  Claim C2, as the code has it. Whenever the dry run (\<^verbatim>\<open>git apply --check\<close>) completes
  with a return code other than zero, the apply command is never started, the standard
  error of the process holds the dry run's captured standard output followed by its
  captured standard error, and the process ends with the dry run's return code modulo
  256. That is the very same code whenever the dry run exited with one, 1..255.
\<close>

theorem dry_run_failure_propagates:
  assumes "Completed check_cmd p \<in> set (events (snd (script ext T fs)))"
    and "returncode p \<noteq> 0"
  shows "spawned (events (snd (script ext T fs))) = [check_cmd] \<and>
         apply_cmd \<notin> set (spawned (events (snd (script ext T fs)))) \<and>
         stderr (snd (script ext T fs)) = cp_stdout p @ cp_stderr p \<and>
         fst (script ext T fs) = returncode p mod 256 \<and>
         (0 < returncode p \<and> returncode p < 256 \<longrightarrow> fst (script ext T fs) = returncode p)"
proof (cases rule: script_cases [where T = T and ext = ext and fs = fs])
  case blank
  from assms show ?thesis
    by (simp add: script_blank [OF blank])
next
  case unencodable
  from assms show ?thesis
    by (simp add: script_unencodable [OF unencodable])
next
  case (check_fails bs p1 fs1)
  from assms show ?thesis
    by (simp add: script_check_fails [where ext = ext and fs = fs, OF check_fails]
        check_ne_apply apply_ne_check)
next
  case (apply_fails bs p1 fs1 q fs2)
  from assms apply_fails(4) show ?thesis
    by (simp add: script_apply_fails [where ext = ext and fs = fs, OF apply_fails]
        check_ne_apply apply_ne_check)
next
  case (success bs p1 fs1 q fs2)
  from assms success(4) show ?thesis
    by (simp add: script_success [where ext = ext and fs = fs, OF success]
        check_ne_apply apply_ne_check)
qed

theorem dry_run_failure_propagates_witness:
  "Completed check_cmd no_patch
     \<in> set (events (snd (script git_rejects (py ''not a patch'') Map.empty))) \<and>
   returncode no_patch = 128 \<and>
   spawned (events (snd (script git_rejects (py ''not a patch'') Map.empty))) = [check_cmd] \<and>
   apply_cmd \<notin> set (spawned (events (snd (script git_rejects (py ''not a patch'') Map.empty)))) \<and>
   stderr (snd (script git_rejects (py ''not a patch'') Map.empty)) =
     py ''error: No valid patches in input'' \<and>
   fst (script git_rejects (py ''not a patch'') Map.empty) = returncode no_patch"
  using dry_run_failure_propagates [of no_patch git_rejects "py ''not a patch''" Map.empty]
  by (simp add: script_git_rejects [OF sample_not_blank sample_bytes] no_patch_def)

text \<open>
  It is not the same code for every return code other than zero: a dry run killed by
  signal 9 has return code \<open>- 9\<close>, and the process ends with status 247.
\<close>

theorem dry_run_killed_counterexample:
  "Completed check_cmd killed
     \<in> set (events (snd (script git_killed (py ''not a patch'') Map.empty))) \<and>
   returncode killed = - 9 \<and>
   returncode killed \<noteq> 0 \<and>
   fst (script git_killed (py ''not a patch'') Map.empty) = 247 \<and>
   fst (script git_killed (py ''not a patch'') Map.empty) \<noteq> returncode killed"
  by (simp add: script_git_killed [OF sample_not_blank sample_bytes] killed_def)

text \<open>
  Claim C5, as the code has it. Whenever the dry run completes with return code zero and
  the apply command (\<^verbatim>\<open>git apply\<close>) completes with another return code, the standard
  error of the process holds the apply command's captured standard output followed by its
  captured standard error, and the process ends with the apply command's return code
  modulo 256, the very same code whenever the command exited with one: what \<open>run\<close> does
  for the dry run, it does for the apply command.
\<close>

theorem apply_failure_propagates:
  assumes "Completed check_cmd p \<in> set (events (snd (script ext T fs)))"
    and "returncode p = 0"
    and "Completed apply_cmd q \<in> set (events (snd (script ext T fs)))"
    and "returncode q \<noteq> 0"
  shows "spawned (events (snd (script ext T fs))) = [check_cmd, apply_cmd] \<and>
         stderr (snd (script ext T fs)) = cp_stdout q @ cp_stderr q \<and>
         fst (script ext T fs) = returncode q mod 256 \<and>
         (0 < returncode q \<and> returncode q < 256 \<longrightarrow> fst (script ext T fs) = returncode q)"
proof (cases rule: script_cases [where T = T and ext = ext and fs = fs])
  case blank
  from assms show ?thesis
    by (simp add: script_blank [OF blank])
next
  case unencodable
  from assms show ?thesis
    by (simp add: script_unencodable [OF unencodable])
next
  case (check_fails bs p1 fs1)
  from assms show ?thesis
    by (simp add: script_check_fails [where ext = ext and fs = fs, OF check_fails]
        check_ne_apply apply_ne_check)
next
  case (apply_fails bs p1 fs1 q1 fs2)
  from assms show ?thesis
    by (simp add: script_apply_fails [where ext = ext and fs = fs, OF apply_fails]
        check_ne_apply apply_ne_check)
next
  case (success bs p1 fs1 q1 fs2)
  from assms success(6) show ?thesis
    by (simp add: script_success [where ext = ext and fs = fs, OF success]
        check_ne_apply apply_ne_check)
qed

theorem apply_failure_propagates_witness:
  "Completed check_cmd accepted
     \<in> set (events (snd (script git_check_only (py ''not a patch'') Map.empty))) \<and>
   returncode accepted = 0 \<and>
   Completed apply_cmd conflict
     \<in> set (events (snd (script git_check_only (py ''not a patch'') Map.empty))) \<and>
   returncode conflict = 1 \<and>
   spawned (events (snd (script git_check_only (py ''not a patch'') Map.empty))) =
     [check_cmd, apply_cmd] \<and>
   stderr (snd (script git_check_only (py ''not a patch'') Map.empty)) = py ''error: patch failed'' \<and>
   fst (script git_check_only (py ''not a patch'') Map.empty) = returncode conflict"
  using apply_failure_propagates [of accepted git_check_only "py ''not a patch''" Map.empty conflict]
  by (simp add: script_git_check_only [OF sample_not_blank sample_bytes] accepted_def conflict_def)

text \<open>
  Here too the status differs from the return code when the apply command is killed by
  signal 9.
\<close>

theorem apply_killed_counterexample:
  "Completed check_cmd accepted
     \<in> set (events (snd (script git_apply_killed (py ''not a patch'') Map.empty))) \<and>
   returncode accepted = 0 \<and>
   Completed apply_cmd killed
     \<in> set (events (snd (script git_apply_killed (py ''not a patch'') Map.empty))) \<and>
   returncode killed = - 9 \<and>
   returncode killed \<noteq> 0 \<and>
   fst (script git_apply_killed (py ''not a patch'') Map.empty) = 247 \<and>
   fst (script git_apply_killed (py ''not a patch'') Map.empty) \<noteq> returncode killed"
  by (simp add: script_git_apply_killed [OF sample_not_blank sample_bytes] killed_def accepted_def)

section \<open>Success\<close>

text \<open>
  Claim C4. Whenever both the dry run and the apply command complete with return code
  zero, the process prints the confirmation line, which contains the path of the patch
  file, to standard output, writes nothing to standard error, and ends with status 0.
\<close>

theorem success_is_confirmed:
  assumes "Completed check_cmd p \<in> set (events (snd (script ext T fs)))"
    and "returncode p = 0"
    and "Completed apply_cmd q \<in> set (events (snd (script ext T fs)))"
    and "returncode q = 0"
  shows "stdout (snd (script ext T fs)) = py ''Applied patch: /tmp/tiara_patch.patch'' @ [10] \<and>
         sublist patch_path (stdout (snd (script ext T fs))) \<and>
         stderr (snd (script ext T fs)) = [] \<and>
         fst (script ext T fs) = 0"
proof (cases rule: script_cases [where T = T and ext = ext and fs = fs])
  case blank
  from assms show ?thesis
    by (simp add: script_blank [OF blank])
next
  case unencodable
  from assms show ?thesis
    by (simp add: script_unencodable [OF unencodable])
next
  case (check_fails bs p1 fs1)
  from assms show ?thesis
    by (simp add: script_check_fails [where ext = ext and fs = fs, OF check_fails]
        check_ne_apply apply_ne_check)
next
  case (apply_fails bs p1 fs1 q1 fs2)
  from assms apply_fails(6) show ?thesis
    by (simp add: script_apply_fails [where ext = ext and fs = fs, OF apply_fails]
        check_ne_apply apply_ne_check)
next
  case (success bs p1 fs1 q1 fs2)
  have "sublist patch_path (py ''Applied patch: '' @ patch_path @ [10])"
    by (rule sublist_appendI)
  then show ?thesis
    by (simp add: script_success [where ext = ext and fs = fs, OF success] confirmation_text)
qed

theorem success_is_confirmed_witness:
  "Completed check_cmd accepted
     \<in> set (events (snd (script git_accepts (py ''not a patch'') Map.empty))) \<and>
   Completed apply_cmd accepted
     \<in> set (events (snd (script git_accepts (py ''not a patch'') Map.empty))) \<and>
   returncode accepted = 0 \<and>
   stdout (snd (script git_accepts (py ''not a patch'') Map.empty)) =
     py ''Applied patch: /tmp/tiara_patch.patch'' @ [10] \<and>
   sublist patch_path (stdout (snd (script git_accepts (py ''not a patch'') Map.empty))) \<and>
   fst (script git_accepts (py ''not a patch'') Map.empty) = 0"
  using success_is_confirmed [of accepted git_accepts "py ''not a patch''" Map.empty accepted]
  by (simp add: script_git_accepts [OF sample_not_blank sample_bytes] accepted_def
      confirmation_text)

section \<open>The order of the steps\<close>

text \<open>
  Claim C6. The log of every run is an initial part of the same sequence: read the
  input, write the file, start the dry run and see it complete, start the apply command
  and see it complete. Each command completes before anything else happens. After blank
  input, after a write that raises, or after a command that completed with a non-zero
  return code, the only thing left is the report on standard error: no later step runs,
  and nothing is run twice.
\<close>

theorem strictly_sequential_pipeline:
  "events (snd (script ext T fs)) =
     (if strip T = [] then [StdinRead T, StderrWrite (usage @ [10])]
      else
        case utf8_encode T of
          None \<Rightarrow> [StdinRead T, FileWrite patch_path T, Traceback UnicodeEncodeError]
        | Some bs \<Rightarrow>
            (case ext check_cmd (fs(patch_path \<mapsto> bs)) of (p, fs1) \<Rightarrow>
               [StdinRead T, FileWrite patch_path T, Spawn check_cmd, Completed check_cmd p] @
               (if returncode p \<noteq> 0
                then [StderrWrite (cp_stdout p), StderrWrite (cp_stderr p)]
                else
                  case ext apply_cmd fs1 of (q, fs2) \<Rightarrow>
                    [Spawn apply_cmd, Completed apply_cmd q] @
                    (if returncode q \<noteq> 0
                     then [StderrWrite (cp_stdout q), StderrWrite (cp_stderr q)]
                     else [StdoutWrite (py ''Applied patch: '' @ patch_path @ [10])]))))"
proof (cases rule: script_cases [where T = T and ext = ext and fs = fs])
  case blank
  then show ?thesis
    by (simp add: script_blank)
next
  case unencodable
  then show ?thesis
    by (simp add: script_unencodable)
next
  case (check_fails bs p fs1)
  then show ?thesis
    by (simp add: script_check_fails [where ext = ext and fs = fs, OF check_fails])
next
  case (apply_fails bs p fs1 q fs2)
  then show ?thesis
    by (simp add: script_apply_fails [where ext = ext and fs = fs, OF apply_fails])
next
  case (success bs p fs1 q fs2)
  then show ?thesis
    by (simp add: script_success [where ext = ext and fs = fs, OF success])
qed

theorem strictly_sequential_pipeline_witness:
  "events (snd (script git_check_only (py ''not a patch'') Map.empty)) =
     [StdinRead (py ''not a patch''), FileWrite patch_path (py ''not a patch''),
      Spawn check_cmd, Completed check_cmd accepted,
      Spawn apply_cmd, Completed apply_cmd conflict,
      StderrWrite [], StderrWrite (py ''error: patch failed'')]"
  using strictly_sequential_pipeline [of git_check_only "py ''not a patch''" Map.empty]
  by (simp add: sample_not_blank sample_bytes git_check_only_def apply_ne_check accepted_def
      conflict_def)

end
